theory Spec2Isabelle
  imports Main
begin

section \<open>Data model\<close>

text \<open>
  Strings are ASCII character lists. A JavaScript dictionary keyed by user id is a map;
  an optional property is an \<open>option\<close>. A thrown value is either an \<open>Error\<close> carrying a
  message, or some other value without a message (\<open>undefined\<close> included).
\<close>

datatype ResponseStatus = IN | OUT | UNDECIDED

datatype TransportType = WALKING | RIDING

datatype thrown = Error string | NotAnError

record user_ref =
  user_id :: string
  nickname :: string

text \<open>One element of \<open>GolfSession['responses']\<close>; also the shape \<open>getUserResponse\<close> returns.\<close>

record response =
  response_id :: string
  status :: ResponseStatus
  note_text :: "string option"
  transport :: "TransportType option"
  user :: user_ref

text \<open>
  An entry of \<open>optimisticResponses\<close>. The transport is optional because the restore
  in \<open>handleStatusClick\<close> writes an entry without that property.
\<close>

record optimistic =
  o_status :: ResponseStatus
  o_note :: string
  o_transport :: "TransportType option"

text \<open>The second argument of \<open>submitResponse\<close>.\<close>

record responseData =
  d_userId :: string
  d_status :: ResponseStatus
  d_note :: string
  d_transport :: TransportType

text \<open>The network call a handler issues: session id first, as in the source.\<close>

datatype mutation =
  SubmitResponse string responseData
| DeleteResponse string string

text \<open>What the injected \<open>submitResponse\<close> / \<open>deleteResponse\<close> resolves to.\<close>

record mutation_result =
  success :: bool
  echo :: "response option"
  result_error :: "string option"

datatype outcome = Resolved mutation_result | Rejected thrown

text \<open>
  The hook's state: the \<open>session\<close> prop (id and responses), the three \<open>useState\<close> cells the
  handlers write, and the callbacks registered with \<open>setTimeout\<close> and not yet run, each as
  its delay in milliseconds and the user id whose overlay entry it deletes.
\<close>

record hook_state =
  session_id :: string
  responses :: "response list"
  optimisticResponses :: "string \<rightharpoonup> optimistic"
  submittingResponse :: "string option"
  error :: "string option"
  timers :: "(nat \<times> string) list"

section \<open>Reading: \<open>getUserResponse\<close>\<close>

definition findUserResponse :: "response list \<Rightarrow> string \<Rightarrow> response option" where
  "findUserResponse rs userId = find (\<lambda>r. user_id (user r) = userId) rs"

text \<open>\<open>serverResponse?.id || `optimistic-${userId}`\<close>: an empty id is falsy.\<close>

definition effective_id :: "response option \<Rightarrow> string \<Rightarrow> string" where
  "effective_id serverResponse userId =
     (case serverResponse of
        None \<Rightarrow> ''optimistic-'' @ userId
      | Some r \<Rightarrow> if response_id r = [] then ''optimistic-'' @ userId else response_id r)"

text \<open>\<open>serverResponse?.user || { id: userId, nickname: '' }\<close>: an object is truthy.\<close>

definition effective_user :: "response option \<Rightarrow> string \<Rightarrow> user_ref" where
  "effective_user serverResponse userId =
     (case serverResponse of
        None \<Rightarrow> \<lparr>user_id = userId, nickname = []\<rparr>
      | Some r \<Rightarrow> user r)"

definition getUserResponse :: "hook_state \<Rightarrow> string \<Rightarrow> response option" where
  "getUserResponse s userId =
     (case optimisticResponses s userId of
        Some e \<Rightarrow>
          (let serverResponse = findUserResponse (responses s) userId
           in Some \<lparr>response_id = effective_id serverResponse userId,
                     status = o_status e,
                     note_text = Some (o_note e),
                     transport = o_transport e,
                     user = effective_user serverResponse userId\<rparr>)
      | None \<Rightarrow> findUserResponse (responses s) userId)"

definition isSubmitting :: "hook_state \<Rightarrow> string \<Rightarrow> bool" where
  "isSubmitting s userId = (submittingResponse s = Some userId)"

text \<open>The updater \<open>prev => { const n = {...prev}; delete n[userId]; return n }\<close>.\<close>

definition delete_entry :: "string \<Rightarrow> hook_state \<Rightarrow> hook_state" where
  "delete_entry userId s = s\<lparr>optimisticResponses := (optimisticResponses s)(userId := None)\<rparr>"

text \<open>The updater \<open>prev => ({ ...prev, [userId]: e })\<close>.\<close>

definition put_entry :: "string \<Rightarrow> optimistic \<Rightarrow> hook_state \<Rightarrow> hook_state" where
  "put_entry userId e s = s\<lparr>optimisticResponses := (optimisticResponses s)(userId \<mapsto> e)\<rparr>"

text \<open>\<open>currentResponse?.note || ''\<close>, \<open>currentResponse?.transport || 'WALKING'\<close>,
  \<open>currentResponse?.status || 'UNDECIDED'\<close>.\<close>

definition note_or_empty :: "response option \<Rightarrow> string" where
  "note_or_empty cur = (case cur of None \<Rightarrow> [] | Some r \<Rightarrow> (case note_text r of None \<Rightarrow> [] | Some n \<Rightarrow> n))"

definition transport_or_walking :: "response option \<Rightarrow> TransportType" where
  "transport_or_walking cur =
     (case cur of None \<Rightarrow> WALKING | Some r \<Rightarrow> (case transport r of None \<Rightarrow> WALKING | Some t \<Rightarrow> t))"

definition status_or_undecided :: "response option \<Rightarrow> ResponseStatus" where
  "status_or_undecided cur = (case cur of None \<Rightarrow> UNDECIDED | Some r \<Rightarrow> status r)"

text \<open>\<open>err instanceof Error ? err.message : fallback\<close>.\<close>

definition message_of :: "thrown \<Rightarrow> string \<Rightarrow> string" where
  "message_of err fallback = (case err of Error m \<Rightarrow> m | NotAnError \<Rightarrow> fallback)"

definition failed :: "string \<Rightarrow> mutation_result" where
  "failed message = \<lparr>success = False, echo = None, result_error = Some message\<rparr>"

section \<open>Writing: the three handlers\<close>

text \<open>
  Each handler is asynchronous: it runs up to its \<open>await\<close>, hands a mutation to the
  injected callback, and resumes with that call's outcome. The part before the \<open>await\<close> is
  \<open>_call\<close>; the part after it is \<open>_settle\<close>, which runs on the state as it is when the call
  settles (every setter uses the functional form \<open>prev => ...\<close>) and with the variables the
  closure captured before the \<open>await\<close>.
\<close>

text \<open>ASCII white space, as \<open>String.prototype.trim\<close> strips it: TAB, LF, VT, FF, CR, SP.\<close>

definition isWhiteSpace :: "char \<Rightarrow> bool" where
  "isWhiteSpace c = (c \<in> set [CHR 0x09, CHR 0x0A, CHR 0x0B, CHR 0x0C, CHR 0x0D, CHR 0x20])"

definition trim :: "string \<Rightarrow> string" where
  "trim s = rev (dropWhile isWhiteSpace (rev (dropWhile isWhiteSpace s)))"

definition shouldRemoveResponse :: "response option \<Rightarrow> ResponseStatus \<Rightarrow> bool" where
  "shouldRemoveResponse currentResponse st =
     (case currentResponse of None \<Rightarrow> False | Some r \<Rightarrow> status r = st)"

definition handleStatusClick_call ::
  "hook_state \<Rightarrow> string \<Rightarrow> ResponseStatus \<Rightarrow> hook_state \<times> mutation" where
  "handleStatusClick_call s userId st =
     (let s1 = s\<lparr>submittingResponse := Some userId, error := None\<rparr>;
          currentResponse = getUserResponse s userId;
          note = note_or_empty currentResponse;
          transport' = transport_or_walking currentResponse
      in if shouldRemoveResponse currentResponse st
         then (delete_entry userId s1, DeleteResponse (session_id s) userId)
         else (put_entry userId \<lparr>o_status = st, o_note = note, o_transport = Some transport'\<rparr> s1,
               SubmitResponse (session_id s)
                 \<lparr>d_userId = userId, d_status = st, d_note = note, d_transport = transport'\<rparr>))"

definition handleStatusClick_settle ::
  "response option \<Rightarrow> ResponseStatus \<Rightarrow> string \<Rightarrow> outcome \<Rightarrow> hook_state
     \<Rightarrow> hook_state \<times> mutation_result" where
  "handleStatusClick_settle currentResponse st userId out s =
     (case out of
        Rejected err \<Rightarrow>
          (let message = message_of err ''Failed to update response''
           in ((delete_entry userId (s\<lparr>error := Some message\<rparr>))\<lparr>submittingResponse := None\<rparr>,
               failed message))
      | Resolved result \<Rightarrow>
          (let s1 =
             (if shouldRemoveResponse currentResponse st
              then (if success result then s
                    else (case currentResponse of
                            None \<Rightarrow> s
                          | Some c \<Rightarrow>
                              put_entry userId
                                \<lparr>o_status = status c,
                                 o_note = note_or_empty currentResponse,
                                 o_transport = None\<rparr> s))
              else (if success result then delete_entry userId s else delete_entry userId s))
           in (s1\<lparr>submittingResponse := None\<rparr>, result)))"

definition handleNoteChange_call :: "hook_state \<Rightarrow> string \<Rightarrow> string \<Rightarrow> hook_state \<times> mutation" where
  "handleNoteChange_call s userId note =
     (let s1 = s\<lparr>error := None\<rparr>;
          currentResponse = getUserResponse s userId;
          st = status_or_undecided currentResponse;
          transport' = transport_or_walking currentResponse;
          trimmedNote = trim note
      in (put_entry userId \<lparr>o_status = st, o_note = trimmedNote, o_transport = Some transport'\<rparr> s1,
          SubmitResponse (session_id s)
            \<lparr>d_userId = userId, d_status = st, d_note = trimmedNote, d_transport = transport'\<rparr>))"

definition handleNoteChange_settle ::
  "string \<Rightarrow> outcome \<Rightarrow> hook_state \<Rightarrow> hook_state \<times> mutation_result" where
  "handleNoteChange_settle userId out s =
     (case out of
        Rejected err \<Rightarrow>
          (let message = message_of err ''Failed to update note''
           in (delete_entry userId (s\<lparr>error := Some message\<rparr>), failed message))
      | Resolved result \<Rightarrow>
          ((if success result then delete_entry userId s else s), result))"

definition handleTransportChange_call ::
  "hook_state \<Rightarrow> string \<Rightarrow> TransportType \<Rightarrow> hook_state \<times> mutation" where
  "handleTransportChange_call s userId transport' =
     (let s1 = s\<lparr>error := None\<rparr>;
          currentResponse = getUserResponse s userId;
          st = status_or_undecided currentResponse;
          note = note_or_empty currentResponse
      in (put_entry userId \<lparr>o_status = st, o_note = note, o_transport = Some transport'\<rparr> s1,
          SubmitResponse (session_id s)
            \<lparr>d_userId = userId, d_status = st, d_note = note, d_transport = transport'\<rparr>))"

text \<open>On success the deletion is not done but registered: \<open>setTimeout(..., 100)\<close>.\<close>

definition handleTransportChange_settle ::
  "string \<Rightarrow> outcome \<Rightarrow> hook_state \<Rightarrow> hook_state \<times> mutation_result" where
  "handleTransportChange_settle userId out s =
     (case out of
        Rejected err \<Rightarrow>
          (let message = message_of err ''Failed to update transport''
           in (delete_entry userId (s\<lparr>error := Some message\<rparr>), failed message))
      | Resolved result \<Rightarrow>
          ((if success result then s\<lparr>timers := timers s @ [(100, userId)]\<rparr>
            else delete_entry userId s), result))"


text \<open>
  A whole operation with nothing interleaved: the callback \<open>env\<close> receives the mutation and
  the repository, and gives the repository as it leaves it together with the outcome.
\<close>

type_synonym callback = "mutation \<Rightarrow> response list \<Rightarrow> response list \<times> outcome"

definition handleStatusClick ::
  "callback \<Rightarrow> hook_state \<Rightarrow> string \<Rightarrow> ResponseStatus \<Rightarrow> hook_state \<times> mutation_result" where
  "handleStatusClick env s userId st =
     (let (s1, m) = handleStatusClick_call s userId st;
          (rs, out) = env m (responses s1)
      in handleStatusClick_settle (getUserResponse s userId) st userId out (s1\<lparr>responses := rs\<rparr>))"

definition handleNoteChange ::
  "callback \<Rightarrow> hook_state \<Rightarrow> string \<Rightarrow> string \<Rightarrow> hook_state \<times> mutation_result" where
  "handleNoteChange env s userId note =
     (let (s1, m) = handleNoteChange_call s userId note;
          (rs, out) = env m (responses s1)
      in handleNoteChange_settle userId out (s1\<lparr>responses := rs\<rparr>))"


text \<open>
  The callbacks the application injects (\<open>useGolfSessions\<close>): they catch every failure of
  the API call and return a tagged result; on success they update the session's responses.
  The API call's own result is the argument \<open>api\<close>.
\<close>

definition submitResponse :: "responseData \<Rightarrow> thrown + response \<Rightarrow> response list
    \<Rightarrow> response list \<times> outcome" where
  "submitResponse data api rs =
     (case api of
        Inr resp \<Rightarrow>
          (filter (\<lambda>r. user_id (user r) \<noteq> d_userId data) rs @ [resp],
           Resolved \<lparr>success = True, echo = Some resp, result_error = None\<rparr>)
      | Inl err \<Rightarrow> (rs, Resolved (failed (message_of err ''Failed to submit response''))))"

definition deleteResponse :: "string \<Rightarrow> thrown + response \<Rightarrow> response list
    \<Rightarrow> response list \<times> outcome" where
  "deleteResponse userId api rs =
     (case api of
        Inr deleted \<Rightarrow>
          (filter (\<lambda>r. user_id (user r) \<noteq> userId) rs,
           Resolved \<lparr>success = True, echo = Some deleted, result_error = None\<rparr>)
      | Inl err \<Rightarrow> (rs, Resolved (failed (message_of err ''Failed to delete response''))))"

definition useGolfSessions :: "(mutation \<Rightarrow> thrown + response) \<Rightarrow> callback" where
  "useGolfSessions api m rs =
     (case m of
        SubmitResponse sid data \<Rightarrow> submitResponse data (api m) rs
      | DeleteResponse sid userId \<Rightarrow> deleteResponse userId (api m) rs)"

section \<open>The request executor: \<open>isRetryableError\<close>, \<open>calculateDelay\<close>, \<open>apiRequest\<close>\<close>

definition maxRetries :: nat where "maxRetries = 4"
definition baseDelayMs :: nat where "baseDelayMs = 1500"
definition maxDelayMs :: nat where "maxDelayMs = 15000"
definition backoffMultiplier :: nat where "backoffMultiplier = 2"

definition retryableErrors :: "string list" where
  "retryableErrors =
     [''Network request failed'',
      ''fetch failed'',
      ''timeout'',
      ''ECONNRESET'',
      ''ETIMEDOUT'',
      ''Failed to fetch'',
      ''NetworkError'',
      ''TypeError: fetch failed'',
      ''TypeError: Network request failed'',
      ''Load failed'',
      ''Connection failed'',
      ''Request timeout'',
      ''Service Unavailable'']"

text \<open>\<open>toLowerCase\<close> on ASCII: the 26 capital letters change, every other character stays.\<close>

definition toLowerCase_char :: "char \<Rightarrow> char" where
  "toLowerCase_char c =
     (case map_of (zip ''ABCDEFGHIJKLMNOPQRSTUVWXYZ'' ''abcdefghijklmnopqrstuvwxyz'') c of
        None \<Rightarrow> c
      | Some l \<Rightarrow> l)"

definition toLowerCase :: "string \<Rightarrow> string" where
  "toLowerCase s = map toLowerCase_char s"

text \<open>\<open>s.includes(t)\<close>: \<open>t\<close> occurs in \<open>s\<close> at some position.\<close>

fun includes_str :: "string \<Rightarrow> string \<Rightarrow> bool" where
  "includes_str [] t = (t = [])"
| "includes_str (c # cs) t = (take (length t) (c # cs) = t \<or> includes_str cs t)"

text \<open>\<open>error?.message?.toLowerCase() || ''\<close>.\<close>

definition errorMessage :: "thrown \<Rightarrow> string" where
  "errorMessage err = (case err of Error m \<Rightarrow> toLowerCase m | NotAnError \<Rightarrow> [])"

definition hasRetryableMessage :: "thrown \<Rightarrow> bool" where
  "hasRetryableMessage err =
     list_ex (\<lambda>retryableError. includes_str (errorMessage err) (toLowerCase retryableError))
       retryableErrors"

text \<open>The second argument is the response's status, \<open>None\<close> when no response was passed.\<close>

definition hasRetryableStatus :: "nat option \<Rightarrow> bool" where
  "hasRetryableStatus resp =
     (case resp of
        None \<Rightarrow> False
      | Some st \<Rightarrow> st = 502 \<or> st = 503 \<or> st = 504 \<or> st = 0)"

definition isRetryableError :: "thrown \<Rightarrow> nat option \<Rightarrow> bool" where
  "isRetryableError err resp = (hasRetryableMessage err \<or> hasRetryableStatus resp)"

definition calculateDelay :: "nat \<Rightarrow> nat" where
  "calculateDelay attempt = min (baseDelayMs * backoffMultiplier ^ attempt) maxDelayMs"

text \<open>
  What one call of \<open>fetch\<close> does: it rejects with a thrown value, or it resolves to a
  response with a status and a body. Reading the body as JSON either throws, or gives a
  value together with that value's \<open>error\<close> property (\<open>None\<close> when it has none).
\<close>

datatype 'a body = JsonThrows thrown | Json "string option" 'a

datatype 'a fetched = FetchRejects thrown | FetchResolves nat "'a body"

definition ok :: "nat \<Rightarrow> bool" where
  "ok st = (200 \<le> st \<and> st \<le> 299)"

text \<open>A status number in decimal, as the template literal prints it.\<close>

definition digit :: "nat \<Rightarrow> char" where
  "digit d = ''0123456789'' ! d"

fun digits :: "nat \<Rightarrow> string" where
  "digits n = (if n < 10 then [digit n] else digits (n div 10) @ [digit (n mod 10)])"

text \<open>\<open>new Error(errorData.error || `HTTP ${response.status}`)\<close>, where \<open>errorData\<close> is the
  parsed body, or \<open>{ error: 'Unknown error' }\<close> when parsing throws.\<close>

definition httpError :: "nat \<Rightarrow> 'a body \<Rightarrow> thrown" where
  "httpError st b =
     (case b of
        JsonThrows e \<Rightarrow> Error ''Unknown error''
      | Json None d \<Rightarrow> Error (''HTTP '' @ digits st)
      | Json (Some m) d \<Rightarrow> Error (if m = [] then ''HTTP '' @ digits st else m))"

text \<open>The result of a run: what is returned or thrown, the calls of \<open>fetch\<close> made, and the
  delays slept, in order.\<close>

record 'a run =
  result :: "thrown + 'a"
  attempts :: nat
  sleeps :: "nat list"

text \<open>
  The \<open>for\<close> loop of \<open>apiRequest\<close>, from iteration \<open>attempt\<close> on, with the loop's variables
  \<open>lastError\<close> and \<open>lastResponse\<close> and the delays slept so far. \<open>fetch k\<close> is what the call
  of \<open>fetch\<close> in iteration \<open>k\<close> does. A \<open>throw\<close> inside the \<open>try\<close> lands in the \<open>catch\<close>.
\<close>

function apiRequest_loop ::
  "(nat \<Rightarrow> 'a fetched) \<Rightarrow> nat \<Rightarrow> thrown \<Rightarrow> nat option \<Rightarrow> nat list \<Rightarrow> 'a run" where
  "apiRequest_loop fetch attempt lastError lastResponse slept =
     (if \<not> attempt \<le> maxRetries
      then \<lparr>result = Inl lastError, attempts = attempt, sleeps = slept\<rparr>
      else
        (let slept1 = (if attempt > 0 then slept @ [calculateDelay (attempt - 1)] else slept);
             catch = (\<lambda>err resp.
               if \<not> isRetryableError err resp \<or> attempt = maxRetries
               then \<lparr>result = Inl err, attempts = Suc attempt, sleeps = slept1\<rparr>
               else apiRequest_loop fetch (Suc attempt) err resp slept1)
         in case fetch attempt of
              FetchRejects err \<Rightarrow> catch err lastResponse
            | FetchResolves st b \<Rightarrow>
                if \<not> ok st
                then (let err = httpError st b
                      in if \<not> isRetryableError err (Some st) \<or> attempt = maxRetries
                         then catch err (Some st)
                         else apiRequest_loop fetch (Suc attempt) err (Some st) slept1)
                else (case b of
                        JsonThrows err \<Rightarrow> catch err (Some st)
                      | Json e data \<Rightarrow>
                          \<lparr>result = Inr data, attempts = Suc attempt, sleeps = slept1\<rparr>)))"
  by pat_completeness auto
termination
  by (relation "measure (\<lambda>(fetch, attempt, lastError, lastResponse, slept). Suc maxRetries - attempt)") auto

definition apiRequest :: "(nat \<Rightarrow> 'a fetched) \<Rightarrow> 'a run" where
  "apiRequest fetch = apiRequest_loop fetch 0 NotAnError None []"

section \<open>Notions used to state the properties\<close>

text \<open>The message of a thrown value, before lower-casing; empty when it has none.\<close>

definition thrownMessage :: "thrown \<Rightarrow> string" where
  "thrownMessage err = (case err of Error m \<Rightarrow> m | NotAnError \<Rightarrow> [])"

text \<open>
  Case-insensitive containment, stated without the code's \<open>toLowerCase\<close> and \<open>includes\<close>:
  some stretch of the message matches the signature letter by letter, up to case.
\<close>

definition containsIgnoringCase :: "string \<Rightarrow> string \<Rightarrow> bool" where
  "containsIgnoringCase message signature \<longleftrightarrow>
     (\<exists>pre mid post. message = pre @ mid @ post \<and>
        list_all2 (\<lambda>a b. toLowerCase_char a = toLowerCase_char b) mid signature)"

text \<open>The error one attempt ends in; \<open>None\<close> when the attempt returns data.\<close>

definition failure :: "'a fetched \<Rightarrow> thrown option" where
  "failure f =
     (case f of
        FetchRejects err \<Rightarrow> Some err
      | FetchResolves st b \<Rightarrow>
          if \<not> ok st then Some (httpError st b)
          else (case b of JsonThrows err \<Rightarrow> Some err | Json e d \<Rightarrow> None))"

text \<open>The value of \<open>lastResponse\<close> when the classifier is asked about an attempt, and
  its value on entry to iteration \<open>k\<close>.\<close>

definition responseSeen :: "nat option \<Rightarrow> 'a fetched \<Rightarrow> nat option" where
  "responseSeen lastResponse f =
     (case f of FetchRejects err \<Rightarrow> lastResponse | FetchResolves st b \<Rightarrow> Some st)"

fun lastResponse_before :: "(nat \<Rightarrow> 'a fetched) \<Rightarrow> nat \<Rightarrow> nat option" where
  "lastResponse_before fetch 0 = None"
| "lastResponse_before fetch (Suc k) = responseSeen (lastResponse_before fetch k) (fetch k)"

text \<open>Attempt \<open>k\<close> fails, and the classifier, as the loop calls it, says retryable.\<close>

definition transient_failure :: "(nat \<Rightarrow> 'a fetched) \<Rightarrow> nat \<Rightarrow> bool" where
  "transient_failure fetch k =
     (case failure (fetch k) of
        None \<Rightarrow> False
      | Some err \<Rightarrow> isRetryableError err (responseSeen (lastResponse_before fetch k) (fetch k)))"

text \<open>A session with one response, by user \<open>u1\<close>, and nothing in flight.\<close>

definition example_state :: hook_state where
  "example_state =
     \<lparr>session_id = ''s1'',
      responses = [\<lparr>response_id = ''r1'', status = IN, note_text = Some ''bring cart'',
                   transport = Some RIDING,
                   user = \<lparr>user_id = ''u1'', nickname = ''Al''\<rparr>\<rparr>],
      optimisticResponses = Map.empty, submittingResponse = None, error = None, timers = []\<rparr>"

text \<open>An API that is unreachable, and one that works: it echoes what it is sent.\<close>

definition api_down :: "mutation \<Rightarrow> thrown + response" where
  "api_down m = Inl (Error ''Network request failed'')"

definition api_up :: "mutation \<Rightarrow> thrown + response" where
  "api_up m =
     (case m of
        SubmitResponse sid d \<Rightarrow>
          Inr \<lparr>response_id = ''r2'', status = d_status d, note_text = Some (d_note d),
               transport = Some (d_transport d),
               user = \<lparr>user_id = d_userId d, nickname = ''Bo''\<rparr>\<rparr>
      | DeleteResponse sid userId \<Rightarrow>
          Inr \<lparr>response_id = userId @ ''-'' @ sid, status = UNDECIDED, note_text = None,
               transport = None, user = \<lparr>user_id = userId, nickname = ''Bo''\<rparr>\<rparr>)"

text \<open>A server that answers every call with 408 and the error "Request timeout".\<close>

definition always_408 :: "nat \<Rightarrow> unit fetched" where
  "always_408 k = FetchResolves 408 (Json (Some ''Request timeout'') ())"

declare apiRequest_loop.simps [simp del]
declare digits.simps [simp del]

section \<open>Reading through the overlay\<close>

lemma findUserResponse_Some:
  "findUserResponse rs u = Some r \<Longrightarrow> r \<in> set rs \<and> user_id (user r) = u"
  unfolding findUserResponse_def by (auto simp: find_Some_iff)

lemma findUserResponse_None:
  "findUserResponse rs u = None \<longleftrightarrow> (\<forall>r\<in>set rs. user_id (user r) \<noteq> u)"
  unfolding findUserResponse_def by (auto simp: find_None_iff)

lemma getUserResponse_no_overlay:
  "optimisticResponses s u = None \<Longrightarrow> getUserResponse s u = findUserResponse (responses s) u"
  by (simp add: getUserResponse_def)

lemma getUserResponse_overlay_status:
  "optimisticResponses s u = Some e \<Longrightarrow> map_option status (getUserResponse s u) = Some (o_status e)"
  by (simp add: getUserResponse_def Let_def)

text \<open>
  C1. With no overlay entry for the user, \<open>getUserResponse\<close> returns exactly the
  repository's record for that user (the first one in the list whose user id matches), or
  nothing if there is none. With an overlay entry, the result takes status, note and
  transport from the entry. Its user identity is that of the repository's record when
  there is one, and otherwise the user id with an empty nickname. Its id is that of the
  repository's record when there is one, and otherwise the synthesized
  \<open>optimistic-<userId>\<close>; here the record's id is taken to be what the backend assigns, a
  non-empty string, since the code reads an empty id as a missing one.
\<close>

theorem getUserResponse_overlay_over_repository:
  "(optimisticResponses s userId = None \<longrightarrow>
      getUserResponse s userId = findUserResponse (responses s) userId) \<and>
   (\<forall>e. optimisticResponses s userId = Some e \<longrightarrow>
      (\<exists>r. getUserResponse s userId = Some r \<and>
           status r = o_status e \<and> note_text r = Some (o_note e) \<and> transport r = o_transport e \<and>
           (case findUserResponse (responses s) userId of
              Some server \<Rightarrow>
                user r = user server \<and>
                (response_id server \<noteq> [] \<longrightarrow> response_id r = response_id server)
            | None \<Rightarrow>
                user r = \<lparr>user_id = userId, nickname = []\<rparr> \<and>
                response_id r = ''optimistic-'' @ userId))) \<and>
   (\<forall>server. findUserResponse (responses s) userId = Some server \<longrightarrow>
      server \<in> set (responses s) \<and> user_id (user server) = userId) \<and>
   (findUserResponse (responses s) userId = None \<longleftrightarrow>
      (\<forall>r\<in>set (responses s). user_id (user r) \<noteq> userId))"
  using findUserResponse_Some [of "responses s" userId] findUserResponse_None [of "responses s" userId]
  by (auto simp: getUserResponse_def effective_id_def effective_user_def Let_def split: option.splits)

text \<open>
  The theorem at the example session, once with user \<open>u1\<close> holding an overlay entry over
  a repository record, once with user \<open>u2\<close>, who has neither.
\<close>

theorem getUserResponse_overlay_over_repository_witness:
  "getUserResponse
     (put_entry ''u1'' \<lparr>o_status = OUT, o_note = ''late'', o_transport = Some WALKING\<rparr> example_state)
     ''u1'' =
   Some \<lparr>response_id = ''r1'', status = OUT, note_text = Some ''late'', transport = Some WALKING,
         user = \<lparr>user_id = ''u1'', nickname = ''Al''\<rparr>\<rparr> \<and>
   getUserResponse example_state ''u2'' = None"
proof -
  let ?e = "\<lparr>o_status = OUT, o_note = ''late'', o_transport = Some WALKING\<rparr>"
  let ?s = "put_entry ''u1'' ?e example_state"
  have entry: "optimisticResponses ?s ''u1'' = Some ?e"
    by (simp add: put_entry_def)
  have repo: "findUserResponse (responses ?s) ''u1'' =
      Some \<lparr>response_id = ''r1'', status = IN, note_text = Some ''bring cart'',
            transport = Some RIDING, user = \<lparr>user_id = ''u1'', nickname = ''Al''\<rparr>\<rparr>"
    by (simp add: put_entry_def example_state_def findUserResponse_def)
  have none: "optimisticResponses example_state ''u2'' = None"
    by (simp add: example_state_def)
  have repo2: "findUserResponse (responses example_state) ''u2'' = None"
    by (simp add: example_state_def findUserResponse_def)
  have id: "response_id \<lparr>response_id = ''r1'', status = IN, note_text = Some ''bring cart'',
      transport = Some RIDING, user = \<lparr>user_id = ''u1'', nickname = ''Al''\<rparr>\<rparr> \<noteq> []"
    by simp
  from getUserResponse_overlay_over_repository [of ?s "''u1''"] entry repo id
  have "getUserResponse ?s ''u1'' =
      Some \<lparr>response_id = ''r1'', status = OUT, note_text = Some ''late'', transport = Some WALKING,
            user = \<lparr>user_id = ''u1'', nickname = ''Al''\<rparr>\<rparr>"
    by auto
  moreover from getUserResponse_overlay_over_repository [of example_state "''u2''"] none repo2
  have "getUserResponse example_state ''u2'' = None"
    by simp
  ultimately show ?thesis by simp
qed

section \<open>The submission tracker\<close>

lemma marked_users: "{u. isSubmitting s u} = (case submittingResponse s of None \<Rightarrow> {} | Some w \<Rightarrow> {w})"
  by (auto simp: isSubmitting_def split: option.splits)

text \<open>
  C10. The tracker is one slot: in every state at most one user is marked; after a status
  operation for \<open>v\<close> has started, \<open>isSubmitting u\<close> holds for \<open>u = v\<close> only; so starting a
  status operation for \<open>v\<close> while one for another user \<open>u\<close> is in flight unmarks \<open>u\<close>.
\<close>

theorem tracker_single_slot:
  "finite {w. isSubmitting s w} \<and> card {w. isSubmitting s w} \<le> 1 \<and>
   (isSubmitting (fst (handleStatusClick_call s v st)) u \<longleftrightarrow> u = v) \<and>
   (u \<noteq> v \<longrightarrow>
      isSubmitting (fst (handleStatusClick_call s u st)) u \<and>
      \<not> isSubmitting (fst (handleStatusClick_call (fst (handleStatusClick_call s u st)) v st')) u)"
proof -
  have "finite {w. isSubmitting s w} \<and> card {w. isSubmitting s w} \<le> 1"
    by (simp add: marked_users split: option.splits)
  moreover have "isSubmitting (fst (handleStatusClick_call s' v' st'')) u' \<longleftrightarrow> u' = v'"
    for s' v' st'' u'
    by (auto simp: handleStatusClick_call_def isSubmitting_def delete_entry_def put_entry_def Let_def)
  ultimately show ?thesis by simp
qed

theorem tracker_single_slot_witness:
  "isSubmitting (fst (handleStatusClick_call example_state ''u1'' OUT)) ''u1'' \<and>
   \<not> isSubmitting
       (fst (handleStatusClick_call (fst (handleStatusClick_call example_state ''u1'' OUT)) ''u2'' IN))
       ''u1''"
proof -
  have "''u1'' \<noteq> ''u2''" by simp
  with tracker_single_slot [where s = example_state and u = "''u1''" and v = "''u2''"
      and st = OUT and st' = IN]
  show ?thesis by blast
qed

section \<open>Status toggle\<close>

lemma shouldRemoveResponse_iff:
  "shouldRemoveResponse cur st \<longleftrightarrow> map_option status cur = Some st"
  by (cases cur) (auto simp: shouldRemoveResponse_def)

lemma handleStatusClick_call_eq:
  "handleStatusClick_call s u st =
     (if map_option status (getUserResponse s u) = Some st
      then (s\<lparr>submittingResponse := Some u, error := None,
               optimisticResponses := (optimisticResponses s)(u := None)\<rparr>,
            DeleteResponse (session_id s) u)
      else (s\<lparr>submittingResponse := Some u, error := None,
               optimisticResponses := (optimisticResponses s)(u \<mapsto>
                 \<lparr>o_status = st, o_note = note_or_empty (getUserResponse s u),
                  o_transport = Some (transport_or_walking (getUserResponse s u))\<rparr>)\<rparr>,
            SubmitResponse (session_id s)
              \<lparr>d_userId = u, d_status = st, d_note = note_or_empty (getUserResponse s u),
               d_transport = transport_or_walking (getUserResponse s u)\<rparr>))"
  by (simp add: handleStatusClick_call_def shouldRemoveResponse_iff delete_entry_def put_entry_def Let_def)

lemma call_remove:
  "map_option status (getUserResponse s u) = Some st \<Longrightarrow>
   handleStatusClick_call s u st =
     (s\<lparr>submittingResponse := Some u, error := None,
        optimisticResponses := (optimisticResponses s)(u := None)\<rparr>,
      DeleteResponse (session_id s) u)"
  by (simp only: handleStatusClick_call_eq simp_thms if_True)

lemma call_set:
  "map_option status (getUserResponse s u) \<noteq> Some st \<Longrightarrow>
   handleStatusClick_call s u st =
     (s\<lparr>submittingResponse := Some u, error := None,
        optimisticResponses := (optimisticResponses s)(u \<mapsto>
          \<lparr>o_status = st, o_note = note_or_empty (getUserResponse s u),
           o_transport = Some (transport_or_walking (getUserResponse s u))\<rparr>)\<rparr>,
      SubmitResponse (session_id s)
        \<lparr>d_userId = u, d_status = st, d_note = note_or_empty (getUserResponse s u),
         d_transport = transport_or_walking (getUserResponse s u)\<rparr>)"
  by (simp only: handleStatusClick_call_eq simp_thms if_False)

lemma issued_after_call:
  "map_option status (getUserResponse s u) = Some st \<Longrightarrow>
   snd (handleStatusClick_call s u st) = DeleteResponse (session_id s) u"
  by (simp only: call_remove simp_thms snd_conv)

text \<open>A second click while the first call is still in flight.\<close>

lemma twice_in_flight:
  assumes "optimisticResponses s u = None"
  shows "snd (handleStatusClick_call (fst (handleStatusClick_call s u st)) u st)
         = DeleteResponse (session_id s) u"
proof (cases "map_option status (getUserResponse s u) = Some st")
  case True
  let ?s1 = "fst (handleStatusClick_call s u st)"
  have s1: "?s1 = s\<lparr>submittingResponse := Some u, error := None,
               optimisticResponses := (optimisticResponses s)(u := None)\<rparr>"
    by (simp only: call_remove [OF True] fst_conv)
  have "getUserResponse ?s1 u = findUserResponse (responses s) u"
    by (simp add: s1 getUserResponse_no_overlay)
  with True assms have "map_option status (getUserResponse ?s1 u) = Some st"
    by (simp add: getUserResponse_no_overlay)
  moreover have "session_id ?s1 = session_id s" by (simp add: s1)
  ultimately show ?thesis using issued_after_call [of ?s1 u st] by simp
next
  case False
  let ?s1 = "fst (handleStatusClick_call s u st)"
  have s1: "?s1 = s\<lparr>submittingResponse := Some u, error := None,
               optimisticResponses := (optimisticResponses s)(u \<mapsto>
                 \<lparr>o_status = st, o_note = note_or_empty (getUserResponse s u),
                  o_transport = Some (transport_or_walking (getUserResponse s u))\<rparr>)\<rparr>"
    by (simp only: call_set [OF False] fst_conv)
  have "optimisticResponses ?s1 u =
      Some \<lparr>o_status = st, o_note = note_or_empty (getUserResponse s u),
            o_transport = Some (transport_or_walking (getUserResponse s u))\<rparr>"
    by (simp add: s1)
  from getUserResponse_overlay_status [OF this]
  have "map_option status (getUserResponse ?s1 u) = Some st"
    by simp
  moreover have "session_id ?s1 = session_id s" by (simp add: s1)
  ultimately show ?thesis using issued_after_call [of ?s1 u st] by simp
qed

lemma find_filter_append:
  "user_id (user r) = u \<Longrightarrow>
   findUserResponse (filter (\<lambda>x. user_id (user x) \<noteq> u) rs @ [r]) u = Some r"
  unfolding findUserResponse_def by (induction rs) auto

text \<open>A second click after the first call's submit has succeeded and been stored.\<close>

lemma twice_settled:
  assumes ne: "map_option status (getUserResponse s u) \<noteq> Some st"
    and api: "api (snd (handleStatusClick_call s u st)) = Inr r"
    and st: "status r = st" and uid: "user_id (user r) = u"
  shows "snd (handleStatusClick_call (fst (handleStatusClick (useGolfSessions api) s u st)) u st)
         = DeleteResponse (session_id s) u"
proof -
  let ?e = "\<lparr>o_status = st, o_note = note_or_empty (getUserResponse s u),
                  o_transport = Some (transport_or_walking (getUserResponse s u))\<rparr>"
  let ?d = "\<lparr>d_userId = u, d_status = st, d_note = note_or_empty (getUserResponse s u),
               d_transport = transport_or_walking (getUserResponse s u)\<rparr>"
  let ?rs = "filter (\<lambda>x. user_id (user x) \<noteq> u) (responses s) @ [r]"
  let ?s2 = "fst (handleStatusClick (useGolfSessions api) s u st)"
  from ne have call: "handleStatusClick_call s u st =
      (s\<lparr>submittingResponse := Some u, error := None,
         optimisticResponses := (optimisticResponses s)(u \<mapsto> ?e)\<rparr>,
       SubmitResponse (session_id s) ?d)"
    by (rule call_set)
  from api call have api': "api (SubmitResponse (session_id s) ?d) = Inr r" by simp
  have s2: "?s2 = s\<lparr>submittingResponse := None, error := None,
         optimisticResponses := (optimisticResponses s)(u := None), responses := ?rs\<rparr>"
  proof -
    have nr: "\<not> shouldRemoveResponse (getUserResponse s u) st"
      using ne by (simp only: shouldRemoveResponse_iff not_False_eq_True)
    show ?thesis
      by (simp add: handleStatusClick_def call useGolfSessions_def submitResponse_def api'
          handleStatusClick_settle_def nr delete_entry_def del: map_option_eq_Some)
  qed
  have "getUserResponse ?s2 u = Some r"
    by (simp add: s2 getUserResponse_no_overlay find_filter_append [OF uid])
  then have "map_option status (getUserResponse ?s2 u) = Some st" by (simp add: st)
  moreover have "session_id ?s2 = session_id s" by (simp add: s2)
  ultimately show ?thesis using issued_after_call [of ?s2 u st] by simp
qed

text \<open>
  C6, as the code has it. For every user and requested status, the part of \<open>setStatus\<close>
  before the network call does one of two things. If the user's current effective response
  has the requested status, it removes the user's overlay entry and issues a delete
  mutation. Otherwise it writes the overlay entry (requested status, current note, current
  transport or WALKING) and issues a submit mutation carrying the same fields. A second
  \<open>setStatus\<close> with the same status issues a delete in two situations: when it comes
  while the first call is in flight, from a state without an overlay entry for the user;
  and when the user's effective status was another one before the first call, and the
  second call comes after the first call's submit has succeeded and the echoed response,
  with that status and that user, is stored.
\<close>

theorem handleStatusClick_toggle:
  "handleStatusClick_call s u st =
     (if map_option status (getUserResponse s u) = Some st
      then (s\<lparr>submittingResponse := Some u, error := None,
               optimisticResponses := (optimisticResponses s)(u := None)\<rparr>,
            DeleteResponse (session_id s) u)
      else (s\<lparr>submittingResponse := Some u, error := None,
               optimisticResponses := (optimisticResponses s)(u \<mapsto>
                 \<lparr>o_status = st, o_note = note_or_empty (getUserResponse s u),
                  o_transport = Some (transport_or_walking (getUserResponse s u))\<rparr>)\<rparr>,
            SubmitResponse (session_id s)
              \<lparr>d_userId = u, d_status = st, d_note = note_or_empty (getUserResponse s u),
               d_transport = transport_or_walking (getUserResponse s u)\<rparr>)) \<and>
   (optimisticResponses s u = None \<longrightarrow>
      snd (handleStatusClick_call (fst (handleStatusClick_call s u st)) u st) =
        DeleteResponse (session_id s) u) \<and>
   (map_option status (getUserResponse s u) \<noteq> Some st \<and>
    api (snd (handleStatusClick_call s u st)) = Inr r \<and> status r = st \<and> user_id (user r) = u \<longrightarrow>
      snd (handleStatusClick_call (fst (handleStatusClick (useGolfSessions api) s u st)) u st) =
        DeleteResponse (session_id s) u)"
  using handleStatusClick_call_eq [of s u st] twice_in_flight [of s u st]
    twice_settled [of s u st api r]
  by blast

text \<open>
  The theorem at the example session for user \<open>u2\<close>, who has no response: the first
  \<open>setStatus(u2, IN)\<close> submits IN with the WALKING default, the second one deletes.
\<close>

theorem handleStatusClick_toggle_witness:
  "snd (handleStatusClick_call example_state ''u2'' IN) =
     SubmitResponse ''s1'' \<lparr>d_userId = ''u2'', d_status = IN, d_note = [], d_transport = WALKING\<rparr> \<and>
   snd (handleStatusClick_call (fst (handleStatusClick_call example_state ''u2'' IN)) ''u2'' IN) =
     DeleteResponse ''s1'' ''u2'' \<and>
   snd (handleStatusClick_call
          (fst (handleStatusClick (useGolfSessions api_up) example_state ''u2'' IN)) ''u2'' IN) =
     DeleteResponse ''s1'' ''u2''"
proof -
  let ?r = "\<lparr>response_id = ''r2'', status = IN, note_text = Some [], transport = Some WALKING,
            user = \<lparr>user_id = ''u2'', nickname = ''Bo''\<rparr>\<rparr>"
  have cur: "getUserResponse example_state ''u2'' = None"
    by (simp add: getUserResponse_def findUserResponse_def example_state_def)
  have h1: "optimisticResponses example_state ''u2'' = None"
    by (simp add: example_state_def)
  have h2: "map_option status (getUserResponse example_state ''u2'') \<noteq> Some IN"
    by (simp add: cur)
  have h3: "api_up (snd (handleStatusClick_call example_state ''u2'' IN)) = Inr ?r"
    by (simp add: api_up_def call_set [OF h2] cur note_or_empty_def transport_or_walking_def)
  have h4: "status ?r = IN \<and> user_id (user ?r) = ''u2''" by simp
  have sid: "session_id example_state = ''s1''" by (simp add: example_state_def)
  note toggle = handleStatusClick_toggle [of example_state "''u2''" IN api_up ?r]
  from toggle h2 have "snd (handleStatusClick_call example_state ''u2'' IN) =
      SubmitResponse (session_id example_state)
        \<lparr>d_userId = ''u2'', d_status = IN,
         d_note = note_or_empty (getUserResponse example_state ''u2''),
         d_transport = transport_or_walking (getUserResponse example_state ''u2'')\<rparr>"
    by (simp only: if_False snd_conv)
  then have a: "snd (handleStatusClick_call example_state ''u2'' IN) =
      SubmitResponse ''s1'' \<lparr>d_userId = ''u2'', d_status = IN, d_note = [], d_transport = WALKING\<rparr>"
    by (simp only: cur sid note_or_empty_def transport_or_walking_def option.case)
  from toggle h1
  have "snd (handleStatusClick_call (fst (handleStatusClick_call example_state ''u2'' IN)) ''u2'' IN) =
      DeleteResponse (session_id example_state) ''u2''"
    by blast
  then have b: "snd (handleStatusClick_call (fst (handleStatusClick_call example_state ''u2'' IN)) ''u2'' IN) =
      DeleteResponse ''s1'' ''u2''"
    by (simp only: sid)
  from toggle h2 h3 h4
  have "snd (handleStatusClick_call
          (fst (handleStatusClick (useGolfSessions api_up) example_state ''u2'' IN)) ''u2'' IN) =
      DeleteResponse (session_id example_state) ''u2''"
    by blast
  then have c: "snd (handleStatusClick_call
          (fst (handleStatusClick (useGolfSessions api_up) example_state ''u2'' IN)) ''u2'' IN) =
      DeleteResponse ''s1'' ''u2''"
    by (simp only: sid)
  from a b c show ?thesis by blast
qed

text \<open>
  C6 as stated fails for a user who already has the status: user \<open>u1\<close> is IN, the
  first \<open>setStatus(u1, IN)\<close> issues a delete, which succeeds and removes the response,
  and the second one then issues a submit.
\<close>

theorem handleStatusClick_twice_counterexample:
  "snd (handleStatusClick_call example_state ''u1'' IN) = DeleteResponse ''s1'' ''u1'' \<and>
   snd (handleStatusClick_call
          (fst (handleStatusClick (useGolfSessions api_up) example_state ''u1'' IN)) ''u1'' IN) =
     SubmitResponse ''s1'' \<lparr>d_userId = ''u1'', d_status = IN, d_note = [], d_transport = WALKING\<rparr>"
  by (simp add: example_state_def api_up_def handleStatusClick_def handleStatusClick_call_def
      handleStatusClick_settle_def useGolfSessions_def deleteResponse_def getUserResponse_def
      findUserResponse_def shouldRemoveResponse_def note_or_empty_def transport_or_walking_def
      put_entry_def delete_entry_def Let_def)

section \<open>Note change\<close>

lemma trim_decompose:
  "\<exists>pre post. n = pre @ trim n @ post \<and> list_all isWhiteSpace pre \<and> list_all isWhiteSpace post"
proof -
  let ?a = "takeWhile isWhiteSpace n"
  let ?m = "dropWhile isWhiteSpace n"
  let ?b = "rev (takeWhile isWhiteSpace (rev ?m))"
  have "?m = rev (takeWhile isWhiteSpace (rev ?m) @ dropWhile isWhiteSpace (rev ?m))"
    by (simp only: takeWhile_dropWhile_id rev_rev_ident)
  then have m: "?m = trim n @ ?b" by (simp only: trim_def rev_append)
  have "n = ?a @ ?m" by simp
  with m have "n = ?a @ trim n @ ?b" by simp
  moreover have "list_all isWhiteSpace ?a"
    by (simp add: list_all_iff) (meson set_takeWhileD)
  moreover have "list_all isWhiteSpace ?b"
    by (simp add: list_all_iff) (meson set_takeWhileD)
  ultimately show ?thesis by blast
qed

lemma trim_ends:
  assumes ne: "trim n \<noteq> []"
  shows "\<not> isWhiteSpace (hd (trim n)) \<and> \<not> isWhiteSpace (last (trim n))"
proof -
  let ?m = "dropWhile isWhiteSpace n"
  let ?r = "dropWhile isWhiteSpace (rev ?m)"
  have t: "trim n = rev ?r" by (simp add: trim_def)
  with ne have r: "?r \<noteq> []" by simp
  then have "\<not> isWhiteSpace (hd ?r)" by (rule hd_dropWhile)
  then have l: "\<not> isWhiteSpace (last (trim n))" using r by (simp add: t last_rev)
  have "?m \<noteq> []"
  proof
    assume "?m = []"
    then have "?r = []" by (simp only: rev.simps dropWhile.simps)
    with r show False by (simp only: not_True_eq_False simp_thms)
  qed
  then have h: "\<not> isWhiteSpace (hd ?m)" by (rule hd_dropWhile)
  obtain pre where "rev ?m = pre @ ?r" by (metis takeWhile_dropWhile_id)
  then have "?m = rev ?r @ rev pre" by (metis rev_append rev_rev_ident)
  then have "hd ?m = hd (rev ?r)" using r by (metis hd_append2 rev_is_Nil_conv)
  with h have "\<not> isWhiteSpace (hd (trim n))" by (simp add: t)
  with l show ?thesis by simp
qed

lemma handleNoteChange_call_issue:
  "snd (handleNoteChange_call s u n) =
     SubmitResponse (session_id s)
       \<lparr>d_userId = u,
        d_status = (case getUserResponse s u of None \<Rightarrow> UNDECIDED | Some r \<Rightarrow> status r),
        d_note = trim n,
        d_transport = (case getUserResponse s u of
                         None \<Rightarrow> WALKING
                       | Some r \<Rightarrow> (case transport r of None \<Rightarrow> WALKING | Some t \<Rightarrow> t))\<rparr>"
  by (simp add: handleNoteChange_call_def status_or_undecided_def transport_or_walking_def Let_def)

text \<open>
  C7. For every user and note, \<open>setNote\<close> submits the user's current effective status
  (UNDECIDED when the user has no effective response) and current effective transport
  (WALKING when there is none), with the note trimmed: the note given is the trimmed note
  with white space before and after it, and the trimmed note, when not empty, neither
  starts nor ends with white space.
\<close>

theorem handleNoteChange_payload:
  "snd (handleNoteChange_call s u n) =
     SubmitResponse (session_id s)
       \<lparr>d_userId = u,
        d_status = (case getUserResponse s u of None \<Rightarrow> UNDECIDED | Some r \<Rightarrow> status r),
        d_note = trim n,
        d_transport = (case getUserResponse s u of
                         None \<Rightarrow> WALKING
                       | Some r \<Rightarrow> (case transport r of None \<Rightarrow> WALKING | Some t \<Rightarrow> t))\<rparr> \<and>
   (\<exists>pre post. n = pre @ trim n @ post \<and> list_all isWhiteSpace pre \<and> list_all isWhiteSpace post) \<and>
   (trim n \<noteq> [] \<longrightarrow> \<not> isWhiteSpace (hd (trim n)) \<and> \<not> isWhiteSpace (last (trim n)))"
  using handleNoteChange_call_issue [of s u n] trim_decompose [of n] trim_ends [of n]
  by blast

text \<open>
  The theorem at the example session: user \<open>u1\<close> has IN, "bring cart", RIDING and sets the
  note " running late "; the payload is IN, "running late", RIDING.
\<close>

theorem handleNoteChange_payload_witness:
  "trim '' running late '' \<noteq> [] \<and>
   snd (handleNoteChange_call example_state ''u1'' '' running late '') =
     SubmitResponse ''s1''
       \<lparr>d_userId = ''u1'', d_status = IN, d_note = ''running late'', d_transport = RIDING\<rparr> \<and>
   \<not> isWhiteSpace (hd (trim '' running late '')) \<and> \<not> isWhiteSpace (last (trim '' running late ''))"
proof -
  have t: "trim '' running late '' = ''running late''"
    by (simp add: trim_def isWhiteSpace_def)
  then have ne: "trim '' running late '' \<noteq> []" by simp
  have cur: "getUserResponse example_state ''u1'' =
      Some \<lparr>response_id = ''r1'', status = IN, note_text = Some ''bring cart'',
            transport = Some RIDING, user = \<lparr>user_id = ''u1'', nickname = ''Al''\<rparr>\<rparr>"
    by (simp add: getUserResponse_def findUserResponse_def example_state_def)
  have sid: "session_id example_state = ''s1''" by (simp add: example_state_def)
  from handleNoteChange_payload [of example_state "''u1''" "'' running late ''"] ne
  show ?thesis by (simp add: cur sid t)
qed

lemma handleNoteChange_run:
  "env (snd (handleNoteChange_call s u n)) (responses s) = (rs, out) \<Longrightarrow>
   handleNoteChange env s u n =
     handleNoteChange_settle u out ((fst (handleNoteChange_call s u n))\<lparr>responses := rs\<rparr>)"
  by (simp add: handleNoteChange_def handleNoteChange_call_def put_entry_def Let_def)

lemma handleNoteChange_call_error: "error (fst (handleNoteChange_call s u n)) = None"
  by (simp add: handleNoteChange_call_def put_entry_def Let_def)

lemma handleNoteChange_settle_rejected:
  "optimisticResponses (fst (handleNoteChange_settle u (Rejected err) s)) u = None \<and>
   error (fst (handleNoteChange_settle u (Rejected err) s)) =
     Some (message_of err ''Failed to update note'') \<and>
   snd (handleNoteChange_settle u (Rejected err) s) = failed (message_of err ''Failed to update note'')"
  by (simp add: handleNoteChange_settle_def delete_entry_def Let_def)

lemma handleNoteChange_settle_resolved:
  "error (fst (handleNoteChange_settle u (Resolved r) s)) = error s \<and>
   snd (handleNoteChange_settle u (Resolved r) s) = r \<and>
   (success r \<longrightarrow> optimisticResponses (fst (handleNoteChange_settle u (Resolved r) s)) u = None)"
  by (simp add: handleNoteChange_settle_def delete_entry_def)

text \<open>
  C4, as the code has it by design. When the mutation call of \<open>setNote\<close> returns an
  unsuccessful result, the operation returns that result and leaves the last-error slot
  empty, as it reset it at its start: the slot is written only when the call throws. When
  the call throws, the user's overlay entry is cleared, the slot holds the thrown error's
  message (or "Failed to update note"), and a failed result with that message is returned.
  When the call returns a successful result, the user's overlay entry is cleared.
\<close>

theorem handleNoteChange_failure:
  "(\<forall>rs r. env (snd (handleNoteChange_call s u n)) (responses s) = (rs, Resolved r) \<and> \<not> success r \<longrightarrow>
      error (fst (handleNoteChange env s u n)) = None \<and>
      snd (handleNoteChange env s u n) = r) \<and>
   (\<forall>rs err. env (snd (handleNoteChange_call s u n)) (responses s) = (rs, Rejected err) \<longrightarrow>
      optimisticResponses (fst (handleNoteChange env s u n)) u = None \<and>
      error (fst (handleNoteChange env s u n)) = Some (message_of err ''Failed to update note'') \<and>
      snd (handleNoteChange env s u n) = failed (message_of err ''Failed to update note'')) \<and>
   (\<forall>rs r. env (snd (handleNoteChange_call s u n)) (responses s) = (rs, Resolved r) \<and> success r \<longrightarrow>
      optimisticResponses (fst (handleNoteChange env s u n)) u = None)"
proof (intro conjI allI impI)
  fix rs r
  assume a: "env (snd (handleNoteChange_call s u n)) (responses s) = (rs, Resolved r) \<and> \<not> success r"
  let ?s1 = "(fst (handleNoteChange_call s u n))\<lparr>responses := rs\<rparr>"
  from a have run: "handleNoteChange env s u n = handleNoteChange_settle u (Resolved r) ?s1"
    by (simp add: handleNoteChange_run)
  have "error ?s1 = None" by (simp add: handleNoteChange_call_error)
  with handleNoteChange_settle_resolved [of u r ?s1]
  show "error (fst (handleNoteChange env s u n)) = None" by (simp add: run)
  from handleNoteChange_settle_resolved [of u r ?s1]
  show "snd (handleNoteChange env s u n) = r" by (simp add: run)
next
  fix rs err
  assume a: "env (snd (handleNoteChange_call s u n)) (responses s) = (rs, Rejected err)"
  let ?s1 = "(fst (handleNoteChange_call s u n))\<lparr>responses := rs\<rparr>"
  from a have run: "handleNoteChange env s u n = handleNoteChange_settle u (Rejected err) ?s1"
    by (simp add: handleNoteChange_run)
  from handleNoteChange_settle_rejected [of u err ?s1]
  show "optimisticResponses (fst (handleNoteChange env s u n)) u = None"
    and "error (fst (handleNoteChange env s u n)) = Some (message_of err ''Failed to update note'')"
    and "snd (handleNoteChange env s u n) = failed (message_of err ''Failed to update note'')"
    by (simp_all add: run)
next
  fix rs r
  assume a: "env (snd (handleNoteChange_call s u n)) (responses s) = (rs, Resolved r) \<and> success r"
  let ?s1 = "(fst (handleNoteChange_call s u n))\<lparr>responses := rs\<rparr>"
  from a have run: "handleNoteChange env s u n = handleNoteChange_settle u (Resolved r) ?s1"
    by (simp add: handleNoteChange_run)
  from a handleNoteChange_settle_resolved [of u r ?s1]
  show "optimisticResponses (fst (handleNoteChange env s u n)) u = None" by (simp add: run)
qed

text \<open>
  The theorem at the example session for user \<open>u1\<close>: the call throws; the call
  returns a failure because the API is unreachable; the call returns success.
\<close>

theorem handleNoteChange_failure_witness:
  "optimisticResponses
     (fst (handleNoteChange (\<lambda>m rs. (rs, Rejected (Error ''boom''))) example_state ''u1'' ''late''))
     ''u1'' = None \<and>
   error (fst (handleNoteChange (\<lambda>m rs. (rs, Rejected (Error ''boom''))) example_state ''u1'' ''late''))
     = Some ''boom'' \<and>
   error (fst (handleNoteChange (useGolfSessions api_down) example_state ''u1'' ''late'')) = None \<and>
   snd (handleNoteChange (useGolfSessions api_down) example_state ''u1'' ''late'') =
     failed ''Network request failed'' \<and>
   optimisticResponses
     (fst (handleNoteChange (useGolfSessions api_up) example_state ''u1'' ''late'')) ''u1'' = None"
proof -
  let ?env = "\<lambda>m rs. (rs :: response list, Rejected (Error ''boom''))"
  let ?echo = "\<lparr>response_id = ''r2'', status = IN, note_text = Some ''late'',
               transport = Some RIDING, user = \<lparr>user_id = ''u1'', nickname = ''Bo''\<rparr>\<rparr>"
  let ?r = "\<lparr>success = True, echo = Some ?echo, result_error = None\<rparr>"
  have cur: "getUserResponse example_state ''u1'' =
      Some \<lparr>response_id = ''r1'', status = IN, note_text = Some ''bring cart'',
            transport = Some RIDING, user = \<lparr>user_id = ''u1'', nickname = ''Al''\<rparr>\<rparr>"
    by (simp add: getUserResponse_def findUserResponse_def example_state_def)
  have t: "?env (snd (handleNoteChange_call example_state ''u1'' ''late'')) (responses example_state)
      = (responses example_state, Rejected (Error ''boom''))"
    by simp
  have d: "useGolfSessions api_down (snd (handleNoteChange_call example_state ''u1'' ''late''))
        (responses example_state)
      = (responses example_state, Resolved (failed ''Network request failed''))"
    by (simp add: useGolfSessions_def submitResponse_def api_down_def message_of_def
        handleNoteChange_call_def Let_def)
  have up: "useGolfSessions api_up (snd (handleNoteChange_call example_state ''u1'' ''late''))
        (responses example_state) = ([?echo], Resolved ?r)"
    by (simp add: useGolfSessions_def submitResponse_def api_up_def handleNoteChange_call_def
        cur status_or_undecided_def transport_or_walking_def trim_def isWhiteSpace_def Let_def)
       (simp add: example_state_def)
  have ok: "success ?r" by simp
  have nf: "\<not> success (failed ''Network request failed'')" by (simp add: failed_def)
  from handleNoteChange_failure [of ?env example_state "''u1''" "''late''"] t
  have "optimisticResponses (fst (handleNoteChange ?env example_state ''u1'' ''late'')) ''u1'' = None \<and>
        error (fst (handleNoteChange ?env example_state ''u1'' ''late'')) =
          Some (message_of (Error ''boom'') ''Failed to update note'')"
    by blast
  moreover
  from handleNoteChange_failure [of "useGolfSessions api_down" example_state "''u1''" "''late''"] d nf
  have "error (fst (handleNoteChange (useGolfSessions api_down) example_state ''u1'' ''late'')) = None \<and>
        snd (handleNoteChange (useGolfSessions api_down) example_state ''u1'' ''late'') =
          failed ''Network request failed''"
    by blast
  moreover
  from handleNoteChange_failure [of "useGolfSessions api_up" example_state "''u1''" "''late''"] up ok
  have "optimisticResponses
      (fst (handleNoteChange (useGolfSessions api_up) example_state ''u1'' ''late'')) ''u1'' = None"
    by blast
  ultimately show ?thesis by (simp add: message_of_def)
qed

text \<open>
  C4 as stated fails: user \<open>u1\<close> sets a note while the API is unreachable, the submit
  callback returns an unsuccessful result, and afterwards the overlay entry is still
  there and the last-error slot is empty.
\<close>

theorem handleNoteChange_failure_counterexample:
  "optimisticResponses
     (fst (handleNoteChange (useGolfSessions api_down) example_state ''u1'' ''running late''))
     ''u1'' =
     Some \<lparr>o_status = IN, o_note = ''running late'', o_transport = Some RIDING\<rparr> \<and>
   error (fst (handleNoteChange (useGolfSessions api_down) example_state ''u1'' ''running late''))
     = None"
  by (simp add: example_state_def api_down_def handleNoteChange_def handleNoteChange_call_def
      handleNoteChange_settle_def useGolfSessions_def submitResponse_def failed_def message_of_def
      getUserResponse_def findUserResponse_def status_or_undecided_def transport_or_walking_def
      trim_def isWhiteSpace_def put_entry_def Let_def)

section \<open>Failed toggle-off\<close>

text \<open>
  C5 at a failing input. User \<open>u1\<close> has IN, "bring cart", RIDING in the repository and
  clicks IN again; the delete fails because the API is unreachable. Before the click the
  effective response has transport RIDING; after the operation the restored overlay entry
  has no transport, and the effective response has none either.
\<close>

theorem handleStatusClick_restore_drops_transport:
  "getUserResponse example_state ''u1'' =
     Some \<lparr>response_id = ''r1'', status = IN, note_text = Some ''bring cart'',
           transport = Some RIDING, user = \<lparr>user_id = ''u1'', nickname = ''Al''\<rparr>\<rparr> \<and>
   snd (handleStatusClick_call example_state ''u1'' IN) = DeleteResponse ''s1'' ''u1'' \<and>
   optimisticResponses
     (fst (handleStatusClick (useGolfSessions api_down) example_state ''u1'' IN)) ''u1'' =
     Some \<lparr>o_status = IN, o_note = ''bring cart'', o_transport = None\<rparr> \<and>
   getUserResponse (fst (handleStatusClick (useGolfSessions api_down) example_state ''u1'' IN)) ''u1'' =
     Some \<lparr>response_id = ''r1'', status = IN, note_text = Some ''bring cart'',
           transport = None, user = \<lparr>user_id = ''u1'', nickname = ''Al''\<rparr>\<rparr>"
  by (simp add: example_state_def api_down_def handleStatusClick_def handleStatusClick_call_def
      handleStatusClick_settle_def useGolfSessions_def deleteResponse_def failed_def message_of_def
      getUserResponse_def findUserResponse_def effective_id_def effective_user_def
      shouldRemoveResponse_def note_or_empty_def transport_or_walking_def put_entry_def
      delete_entry_def Let_def)

section \<open>Who marks the tracker\<close>

text \<open>
  C8, as the code has it. Only \<open>setStatus\<close> touches the submitting mark: it marks the
  user before the network call, and whatever the outcome (success, returned failure, thrown
  exception) it leaves the slot empty, so that \<open>isSubmitting\<close> is false for every user.
  \<open>setNote\<close> and \<open>setTransport\<close> leave the slot as they find it, before and after the
  network call.
\<close>

theorem submitting_mark_only_in_handleStatusClick:
  "isSubmitting (fst (handleStatusClick_call s u st)) u \<and>
   submittingResponse (fst (handleStatusClick_settle cur st u out s)) = None \<and>
   \<not> isSubmitting (fst (handleStatusClick_settle cur st u out s)) v \<and>
   \<not> isSubmitting (fst (handleStatusClick env s u st)) v \<and>
   submittingResponse (fst (handleNoteChange_call s u n)) = submittingResponse s \<and>
   submittingResponse (fst (handleNoteChange_settle u out s)) = submittingResponse s \<and>
   submittingResponse (fst (handleTransportChange_call s u t)) = submittingResponse s \<and>
   submittingResponse (fst (handleTransportChange_settle u out s)) = submittingResponse s"
proof -
  have settle: "submittingResponse (fst (handleStatusClick_settle c st u out' s')) = None"
    for c out' s'
    by (cases out')
       (simp_all add: handleStatusClick_settle_def delete_entry_def put_entry_def Let_def
          split: option.splits)
  have whole: "submittingResponse (fst (handleStatusClick env s u st)) = None"
    by (simp add: handleStatusClick_def settle split: prod.splits)
  have rest: "submittingResponse (fst (handleNoteChange_call s u n)) = submittingResponse s \<and>
      submittingResponse (fst (handleNoteChange_settle u out s)) = submittingResponse s \<and>
      submittingResponse (fst (handleTransportChange_call s u t)) = submittingResponse s \<and>
      submittingResponse (fst (handleTransportChange_settle u out s)) = submittingResponse s"
    by (cases out)
       (simp_all add: handleNoteChange_call_def handleNoteChange_settle_def
          handleTransportChange_call_def handleTransportChange_settle_def
          put_entry_def delete_entry_def Let_def)
  have "isSubmitting (fst (handleStatusClick_call s u st)) u"
    by (simp add: handleStatusClick_call_def isSubmitting_def put_entry_def delete_entry_def Let_def)
  with settle [of cur out s] whole rest show ?thesis
    by (simp add: isSubmitting_def)
qed

text \<open>
  C8 as stated fails for \<open>setNote\<close>: while its network call is in flight, the user is
  not marked as submitting.
\<close>

theorem handleNoteChange_not_marked_counterexample:
  "\<not> isSubmitting (fst (handleNoteChange_call example_state ''u1'' ''running late'')) ''u1''"
  by (simp add: example_state_def handleNoteChange_call_def isSubmitting_def put_entry_def Let_def)

section \<open>Transport change\<close>









section \<open>The classifier\<close>

lemma includes_str_iff: "includes_str s t \<longleftrightarrow> (\<exists>pre post. s = pre @ t @ post)"
proof (induction s)
  case Nil
  then show ?case by auto
next
  case (Cons c cs)
  show ?case
  proof
    assume "includes_str (c # cs) t"
    then consider "take (length t) (c # cs) = t" | "includes_str cs t" by auto
    then show "\<exists>pre post. c # cs = pre @ t @ post"
    proof cases
      case 1
      then have "c # cs = [] @ t @ drop (length t) (c # cs)"
        by (metis append_Nil append_take_drop_id)
      then show ?thesis by blast
    next
      case 2
      with Cons.IH obtain pre post where "cs = pre @ t @ post" by blast
      then have "c # cs = (c # pre) @ t @ post" by simp
      then show ?thesis by blast
    qed
  next
    assume "\<exists>pre post. c # cs = pre @ t @ post"
    then obtain pre post where eq: "c # cs = pre @ t @ post" by blast
    show "includes_str (c # cs) t"
    proof (cases pre)
      case Nil
      with eq have "take (length t) (c # cs) = t" by simp
      then show ?thesis by simp
    next
      case (Cons p ps)
      with eq have "cs = ps @ t @ post" by simp
      with Cons.IH have "includes_str cs t" by blast
      then show ?thesis by simp
    qed
  qed
qed

lemma lower_occurs_iff:
  "(\<exists>pre post. toLowerCase m = pre @ toLowerCase sig @ post) \<longleftrightarrow> containsIgnoringCase m sig"
proof
  assume "\<exists>pre post. toLowerCase m = pre @ toLowerCase sig @ post"
  then obtain pre post where "map toLowerCase_char m = pre @ (map toLowerCase_char sig @ post)"
    by (auto simp: toLowerCase_def)
  then obtain a r where m: "m = a @ r"
    and r0: "map toLowerCase_char r = map toLowerCase_char sig @ post"
    by (metis map_eq_append_conv)
  then obtain b c where r: "r = b @ c" and b: "map toLowerCase_char b = map toLowerCase_char sig"
    by (metis map_eq_append_conv)
  from b have "list_all2 (\<lambda>a b. toLowerCase_char a = toLowerCase_char b) b sig"
    by (simp add: list_all2_conv_all_nth map_equality_iff)
  with m r show "containsIgnoringCase m sig"
    unfolding containsIgnoringCase_def by blast
next
  assume "containsIgnoringCase m sig"
  then obtain pre mid post where m: "m = pre @ mid @ post"
    and l: "list_all2 (\<lambda>a b. toLowerCase_char a = toLowerCase_char b) mid sig"
    unfolding containsIgnoringCase_def by blast
  from l have "map toLowerCase_char mid = map toLowerCase_char sig"
    by (simp add: list_all2_conv_all_nth map_equality_iff)
  with m have "toLowerCase m = toLowerCase pre @ toLowerCase sig @ toLowerCase post"
    by (simp add: toLowerCase_def)
  then show "\<exists>pre post. toLowerCase m = pre @ toLowerCase sig @ post" by blast
qed

lemma hasRetryableMessage_iff:
  "hasRetryableMessage err \<longleftrightarrow>
     (\<exists>sig\<in>set retryableErrors. containsIgnoringCase (thrownMessage err) sig)"
proof -
  have "errorMessage err = toLowerCase (thrownMessage err)"
    by (cases err) (simp_all add: errorMessage_def thrownMessage_def toLowerCase_def)
  then show ?thesis
    by (simp only: hasRetryableMessage_def list_ex_iff includes_str_iff lower_occurs_iff)
qed

lemma hasRetryableStatus_iff:
  "hasRetryableStatus resp \<longleftrightarrow> (\<exists>st. resp = Some st \<and> st \<in> {502, 503, 504, 0})"
  by (cases resp) (auto simp: hasRetryableStatus_def)

lemma client_error_status: "400 \<le> st \<Longrightarrow> st \<le> 499 \<Longrightarrow> \<not> hasRetryableStatus (Some st)"
  by (simp add: hasRetryableStatus_def)

text \<open>Unfolded forms, for evaluating the classifier on a given message.\<close>

lemma toLowerCase_char_simps:
  "toLowerCase_char c =
     (if c = CHR ''A'' then CHR ''a'' else if c = CHR ''B'' then CHR ''b''
      else if c = CHR ''C'' then CHR ''c'' else if c = CHR ''D'' then CHR ''d''
      else if c = CHR ''E'' then CHR ''e'' else if c = CHR ''F'' then CHR ''f''
      else if c = CHR ''G'' then CHR ''g'' else if c = CHR ''H'' then CHR ''h''
      else if c = CHR ''I'' then CHR ''i'' else if c = CHR ''J'' then CHR ''j''
      else if c = CHR ''K'' then CHR ''k'' else if c = CHR ''L'' then CHR ''l''
      else if c = CHR ''M'' then CHR ''m'' else if c = CHR ''N'' then CHR ''n''
      else if c = CHR ''O'' then CHR ''o'' else if c = CHR ''P'' then CHR ''p''
      else if c = CHR ''Q'' then CHR ''q'' else if c = CHR ''R'' then CHR ''r''
      else if c = CHR ''S'' then CHR ''s'' else if c = CHR ''T'' then CHR ''t''
      else if c = CHR ''U'' then CHR ''u'' else if c = CHR ''V'' then CHR ''v''
      else if c = CHR ''W'' then CHR ''w'' else if c = CHR ''X'' then CHR ''x''
      else if c = CHR ''Y'' then CHR ''y'' else if c = CHR ''Z'' then CHR ''z'' else c)"
  by (simp add: toLowerCase_char_def)

lemma lowered_signatures:
  "map toLowerCase retryableErrors =
     [''network request failed'', ''fetch failed'', ''timeout'', ''econnreset'', ''etimedout'',
      ''failed to fetch'', ''networkerror'', ''typeerror: fetch failed'',
      ''typeerror: network request failed'', ''load failed'', ''connection failed'',
      ''request timeout'', ''service unavailable'']"
  by (simp add: retryableErrors_def toLowerCase_def toLowerCase_char_simps)

lemma hasRetryableMessage_lowered:
  "hasRetryableMessage err =
     list_ex (includes_str (errorMessage err)) (map toLowerCase retryableErrors)"
  by (simp add: hasRetryableMessage_def list_ex_iff)

section \<open>The retry loop\<close>

lemma loop_stop:
  assumes le: "attempt \<le> maxRetries" and f: "failure (fetch attempt) = Some err"
    and stop: "\<not> isRetryableError err (responseSeen lastResponse (fetch attempt)) \<or> attempt = maxRetries"
  shows "apiRequest_loop fetch attempt lastError lastResponse slept =
         \<lparr>result = Inl err, attempts = Suc attempt,
          sleeps = (if attempt > 0 then slept @ [calculateDelay (attempt - 1)] else slept)\<rparr>"
proof (cases "fetch attempt")
  case (FetchRejects e)
  with f have e: "e = err" by (simp add: failure_def)
  from stop FetchRejects have "\<not> isRetryableError err lastResponse \<or> attempt = maxRetries"
    by (simp add: responseSeen_def)
  then show ?thesis
    using le by (subst apiRequest_loop.simps) (auto simp: FetchRejects e Let_def)
next
  case (FetchResolves st b)
  from stop FetchResolves have stop': "\<not> isRetryableError err (Some st) \<or> attempt = maxRetries"
    by (simp add: responseSeen_def)
  show ?thesis
  proof (cases "ok st")
    case False
    with f FetchResolves have e: "httpError st b = err" by (simp add: failure_def)
    show ?thesis
      using le stop' False
      by (subst apiRequest_loop.simps) (auto simp: FetchResolves e Let_def)
  next
    case True
    with f FetchResolves obtain e where b: "b = JsonThrows e" and e: "e = err"
      by (cases b) (auto simp: failure_def)
    show ?thesis
      using le stop' True
      by (subst apiRequest_loop.simps) (auto simp: FetchResolves b e Let_def)
  qed
qed

lemma loop_retry:
  assumes lt: "attempt < maxRetries" and f: "failure (fetch attempt) = Some err"
    and retry: "isRetryableError err (responseSeen lastResponse (fetch attempt))"
  shows "apiRequest_loop fetch attempt lastError lastResponse slept =
         apiRequest_loop fetch (Suc attempt) err (responseSeen lastResponse (fetch attempt))
           (if attempt > 0 then slept @ [calculateDelay (attempt - 1)] else slept)"
proof (cases "fetch attempt")
  case (FetchRejects e)
  with f have e: "e = err" by (simp add: failure_def)
  from retry FetchRejects have r: "isRetryableError err lastResponse"
    by (simp add: responseSeen_def)
  show ?thesis
    using lt r by (subst apiRequest_loop.simps) (auto simp: FetchRejects e responseSeen_def Let_def)
next
  case (FetchResolves st b)
  from retry FetchResolves have r: "isRetryableError err (Some st)"
    by (simp add: responseSeen_def)
  show ?thesis
  proof (cases "ok st")
    case False
    with f FetchResolves have e: "httpError st b = err" by (simp add: failure_def)
    show ?thesis
      using lt r False
      by (subst apiRequest_loop.simps) (auto simp: FetchResolves e responseSeen_def Let_def)
  next
    case True
    with f FetchResolves obtain e where b: "b = JsonThrows e" and e: "e = err"
      by (cases b) (auto simp: failure_def)
    show ?thesis
      using lt r True
      by (subst apiRequest_loop.simps) (auto simp: FetchResolves b e responseSeen_def Let_def)
  qed
qed

lemma calculateDelay_values:
  "calculateDelay 0 = 1500" "calculateDelay (Suc 0) = 3000"
  "calculateDelay (Suc (Suc 0)) = 6000" "calculateDelay (Suc (Suc (Suc 0))) = 12000"
  by (simp_all add: calculateDelay_def baseDelayMs_def backoffMultiplier_def maxDelayMs_def)

lemma maxRetries_Suc: "maxRetries = Suc (Suc (Suc (Suc 0)))"
  by (simp add: maxRetries_def)

lemma transient_failureD:
  "transient_failure fetch k \<Longrightarrow>
   \<exists>err. failure (fetch k) = Some err \<and>
         isRetryableError err (lastResponse_before fetch (Suc k))"
  by (auto simp: transient_failure_def split: option.splits)

lemma all_transient_run:
  assumes t: "\<forall>k\<le>maxRetries. transient_failure fetch k"
  shows "apiRequest fetch =
         \<lparr>result = Inl (the (failure (fetch maxRetries))), attempts = 5,
          sleeps = [1500, 3000, 6000, 12000]\<rparr>"
proof -
  let ?a1 = "Suc 0"
  let ?a2 = "Suc ?a1"
  let ?a3 = "Suc ?a2"
  let ?a4 = "Suc ?a3"
  let ?lr = "lastResponse_before fetch"
  from t have "transient_failure fetch 0" by simp
  from transient_failureD [OF this] obtain e0 where
    f0: "failure (fetch 0) = Some e0" and r0: "isRetryableError e0 (responseSeen (?lr 0) (fetch 0))"
    by auto
  from t have "transient_failure fetch ?a1" by (simp add: maxRetries_Suc)
  from transient_failureD [OF this] obtain e1 where
    f1: "failure (fetch ?a1) = Some e1" and r1: "isRetryableError e1 (responseSeen (?lr ?a1) (fetch ?a1))"
    by auto
  from t have "transient_failure fetch ?a2" by (simp add: maxRetries_Suc)
  from transient_failureD [OF this] obtain e2 where
    f2: "failure (fetch ?a2) = Some e2" and r2: "isRetryableError e2 (responseSeen (?lr ?a2) (fetch ?a2))"
    by auto
  from t have "transient_failure fetch ?a3" by (simp add: maxRetries_Suc)
  from transient_failureD [OF this] obtain e3 where
    f3: "failure (fetch ?a3) = Some e3" and r3: "isRetryableError e3 (responseSeen (?lr ?a3) (fetch ?a3))"
    by auto
  from t have "transient_failure fetch ?a4" by (simp add: maxRetries_Suc)
  from transient_failureD [OF this] obtain e4 where
    f4: "failure (fetch ?a4) = Some e4"
    by auto
  have "apiRequest fetch = apiRequest_loop fetch 0 NotAnError (?lr 0) []"
    by (simp add: apiRequest_def)
  also have "\<dots> = apiRequest_loop fetch ?a1 e0 (?lr ?a1) []"
    using loop_retry [of 0 fetch e0 "?lr 0" NotAnError "[]", OF _ f0 r0]
    by (simp add: maxRetries_Suc)
  also have "\<dots> = apiRequest_loop fetch ?a2 e1 (?lr ?a2) [1500]"
    using loop_retry [of ?a1 fetch e1 "?lr ?a1" e0 "[]", OF _ f1 r1]
    by (simp add: maxRetries_Suc calculateDelay_values)
  also have "\<dots> = apiRequest_loop fetch ?a3 e2 (?lr ?a3) [1500, 3000]"
    using loop_retry [of ?a2 fetch e2 "?lr ?a2" e1 "[1500]", OF _ f2 r2]
    by (simp add: maxRetries_Suc calculateDelay_values)
  also have "\<dots> = apiRequest_loop fetch ?a4 e3 (?lr ?a4) [1500, 3000, 6000]"
    using loop_retry [of ?a3 fetch e3 "?lr ?a3" e2 "[1500, 3000]", OF _ f3 r3]
    by (simp add: maxRetries_Suc calculateDelay_values)
  also have "\<dots> = \<lparr>result = Inl e4, attempts = Suc ?a4, sleeps = [1500, 3000, 6000, 12000]\<rparr>"
    using loop_stop [of ?a4 fetch e4 "?lr ?a4" e3 "[1500, 3000, 6000]", OF _ f4]
    by (simp add: maxRetries_Suc calculateDelay_values)
  finally show ?thesis using f4 by (simp add: maxRetries_Suc)
qed

text \<open>
  C2. If every one of the five attempts fails and the classifier, as the loop calls it,
  finds the failure retryable, then \<open>apiRequest\<close> calls \<open>fetch\<close> exactly 5 times, one more
  than \<open>maxRetries\<close>; the delays it sleeps are, for k = 1..4 in this order,
  \<open>min (1500 * 2 ^ (k - 1)) 15000\<close>, that is 1500, 3000, 6000 and 12000 ms, 22500 ms in
  all; and it throws the error of the last attempt.
\<close>

theorem apiRequest_retry_bound:
  assumes "\<forall>k\<le>maxRetries. transient_failure fetch k"
  shows "attempts (apiRequest fetch) = 5 \<and>
         attempts (apiRequest fetch) = 1 + maxRetries \<and>
         sleeps (apiRequest fetch) = map (\<lambda>k. min (1500 * 2 ^ (k - 1)) 15000) [1, 2, 3, 4] \<and>
         sleeps (apiRequest fetch) = [1500, 3000, 6000, 12000] \<and>
         sum_list (sleeps (apiRequest fetch)) = 22500 \<and>
         (\<exists>err. failure (fetch maxRetries) = Some err \<and> result (apiRequest fetch) = Inl err)"
proof -
  from assms have "transient_failure fetch maxRetries" by simp
  then obtain err where f: "failure (fetch maxRetries) = Some err"
    using transient_failureD by blast
  have run: "apiRequest fetch =
      \<lparr>result = Inl err, attempts = 5, sleeps = [1500, 3000, 6000, 12000]\<rparr>"
    using all_transient_run [OF assms] f by simp
  have "attempts (apiRequest fetch) = 5" by (simp add: run)
  moreover have "attempts (apiRequest fetch) = 1 + maxRetries" by (simp add: run maxRetries_def)
  moreover have "sleeps (apiRequest fetch) = [1500, 3000, 6000, 12000]" by (simp add: run)
  moreover have "map (\<lambda>k. min (1500 * 2 ^ (k - 1)) 15000) [1, 2, 3, 4] = [1500, 3000, 6000, 12000 :: nat]"
    by simp
  moreover have "sum_list (sleeps (apiRequest fetch)) = 22500" by (simp add: run)
  moreover have "result (apiRequest fetch) = Inl err" by (simp add: run)
  ultimately show ?thesis using f by simp
qed

text \<open>
  The theorem for a request that never gets through: every call of \<open>fetch\<close> rejects with
  "Network request failed".
\<close>

theorem apiRequest_retry_bound_witness:
  "attempts (apiRequest (\<lambda>k. FetchRejects (Error ''Network request failed'') :: unit fetched)) = 5 \<and>
   sleeps (apiRequest (\<lambda>k. FetchRejects (Error ''Network request failed'') :: unit fetched)) =
     [1500, 3000, 6000, 12000] \<and>
   result (apiRequest (\<lambda>k. FetchRejects (Error ''Network request failed'') :: unit fetched)) =
     Inl (Error ''Network request failed'')"
proof -
  let ?fetch = "\<lambda>k. FetchRejects (Error ''Network request failed'') :: unit fetched"
  have m: "hasRetryableMessage (Error ''Network request failed'')"
    by (simp add: hasRetryableMessage_lowered lowered_signatures errorMessage_def toLowerCase_def
        toLowerCase_char_simps)
  have h: "\<forall>k\<le>maxRetries. transient_failure ?fetch k"
    by (simp add: transient_failure_def failure_def isRetryableError_def m)
  have f: "failure (?fetch maxRetries) = Some (Error ''Network request failed'')"
    by (simp add: failure_def)
  from apiRequest_retry_bound [OF h] f show ?thesis by simp
qed

section \<open>What the classifier accepts\<close>

text \<open>
  C3, as the code has it. \<open>isRetryableError\<close> is true exactly when the error's message
  contains one of the configured signatures, compared without regard to case, or a
  response is given and its status is 502, 503, 504 or 0. For a 4xx status it is therefore
  true exactly when the message contains a signature: false for a client error whose
  message contains none, true for one whose message contains one. A request whose first
  response is a 4xx whose error message contains no signature makes exactly 1 attempt,
  sleeps not at all and throws that error.
\<close>

theorem isRetryableError_characterisation:
  "(isRetryableError err resp \<longleftrightarrow>
      (\<exists>sig\<in>set retryableErrors. containsIgnoringCase (thrownMessage err) sig) \<or>
      (\<exists>st. resp = Some st \<and> st \<in> {502, 503, 504, 0})) \<and>
   (400 \<le> st \<and> st \<le> 499 \<longrightarrow>
      (isRetryableError err (Some st) \<longleftrightarrow>
         (\<exists>sig\<in>set retryableErrors. containsIgnoringCase (thrownMessage err) sig))) \<and>
   (400 \<le> st \<and> st \<le> 499 \<and> fetch 0 = FetchResolves st b \<and>
    \<not> (\<exists>sig\<in>set retryableErrors. containsIgnoringCase (thrownMessage (httpError st b)) sig) \<longrightarrow>
      apiRequest fetch = \<lparr>result = Inl (httpError st b), attempts = 1, sleeps = []\<rparr>)"
proof (intro conjI impI)
  show "isRetryableError err resp \<longleftrightarrow>
      (\<exists>sig\<in>set retryableErrors. containsIgnoringCase (thrownMessage err) sig) \<or>
      (\<exists>st. resp = Some st \<and> st \<in> {502, 503, 504, 0})"
    by (simp only: isRetryableError_def hasRetryableMessage_iff hasRetryableStatus_iff)
next
  assume "400 \<le> st \<and> st \<le> 499"
  then have "\<not> hasRetryableStatus (Some st)" by (simp add: client_error_status)
  then show "isRetryableError err (Some st) \<longleftrightarrow>
      (\<exists>sig\<in>set retryableErrors. containsIgnoringCase (thrownMessage err) sig)"
    by (simp add: isRetryableError_def hasRetryableMessage_iff)
next
  assume a: "400 \<le> st \<and> st \<le> 499 \<and> fetch 0 = FetchResolves st b \<and>
    \<not> (\<exists>sig\<in>set retryableErrors. containsIgnoringCase (thrownMessage (httpError st b)) sig)"
  then have nok: "\<not> ok st" by (simp add: ok_def)
  from a have ns: "\<not> hasRetryableStatus (Some st)" by (simp add: client_error_status)
  from a have nm: "\<not> hasRetryableMessage (httpError st b)"
    using hasRetryableMessage_iff [of "httpError st b"] by blast
  from a nok have f: "failure (fetch 0) = Some (httpError st b)" by (simp add: failure_def)
  from a ns nm have stop: "\<not> isRetryableError (httpError st b) (responseSeen None (fetch 0)) \<or>
      0 = maxRetries"
    by (simp add: isRetryableError_def responseSeen_def)
  from loop_stop [of 0 fetch "httpError st b" None NotAnError "[]", OF _ f stop]
  show "apiRequest fetch = \<lparr>result = Inl (httpError st b), attempts = 1, sleeps = []\<rparr>"
    by (simp add: apiRequest_def)
qed

text \<open>The theorem for a request answered 404 with the error "Not found".\<close>

theorem isRetryableError_characterisation_witness:
  "\<not> isRetryableError (Error ''Not found'') (Some 404) \<and>
   apiRequest (\<lambda>k. FetchResolves 404 (Json (Some ''Not found'') ())) =
     \<lparr>result = Inl (Error ''Not found''), attempts = 1, sleeps = []\<rparr>"
proof -
  let ?fetch = "\<lambda>k::nat. FetchResolves 404 (Json (Some ''Not found'') ())"
  have e: "httpError 404 (Json (Some ''Not found'') ()) = Error ''Not found''"
    by (simp add: httpError_def)
  have "\<not> hasRetryableMessage (Error ''Not found'')"
    by (simp add: hasRetryableMessage_lowered lowered_signatures errorMessage_def toLowerCase_def
        toLowerCase_char_simps)
  then have n: "\<not> (\<exists>sig\<in>set retryableErrors.
      containsIgnoringCase (thrownMessage (Error ''Not found'')) sig)"
    using hasRetryableMessage_iff [of "Error ''Not found''"] by blast
  have r: "(400::nat) \<le> 404 \<and> (404::nat) \<le> 499" by simp
  have f: "?fetch 0 = FetchResolves 404 (Json (Some ''Not found'') ())" by simp
  note c = isRetryableError_characterisation
    [of "Error ''Not found''" "Some 404" 404 ?fetch "Json (Some ''Not found'') ()"]
  from c r n have "\<not> isRetryableError (Error ''Not found'') (Some 404)" by blast
  moreover from c r f n e
  have "apiRequest ?fetch = \<lparr>result = Inl (Error ''Not found''), attempts = 1, sleeps = []\<rparr>"
    by simp
  ultimately show ?thesis by blast
qed

text \<open>
  C3 as stated fails for a 4xx whose message carries a signature: a 408 answered with the
  error "Request timeout" is classified retryable, and the request is attempted 5 times.
\<close>

theorem isRetryableError_client_error_counterexample:
  "isRetryableError (httpError 408 (Json (Some ''Request timeout'') ())) (Some 408) \<and>
   attempts (apiRequest always_408) = 5"
proof -
  have e: "httpError 408 (Json (Some ''Request timeout'') ()) = Error ''Request timeout''"
    by (simp add: httpError_def)
  have m: "hasRetryableMessage (Error ''Request timeout'')"
    by (simp add: hasRetryableMessage_lowered lowered_signatures errorMessage_def toLowerCase_def
        toLowerCase_char_simps)
  then have r: "isRetryableError (Error ''Request timeout'') resp" for resp
    by (simp add: isRetryableError_def)
  have "\<forall>k\<le>maxRetries. transient_failure always_408 k"
    by (simp add: always_408_def transient_failure_def failure_def ok_def e r)
  from all_transient_run [OF this] have "attempts (apiRequest always_408) = 5" by simp
  with r e show ?thesis by simp
qed

end
